theory Spec2Isabelle
  imports Main
begin

section \<open>Python strings\<close>

text \<open>
  A Python \<^verbatim>\<open>str\<close> is a sequence of Unicode code points, and \<^verbatim>\<open>len\<close> and slicing count
  code points: \<open>pystr\<close>. Text that is ASCII in the source is written with \<open>ascii\<close>. The
  values that stay a \<open>string\<close> are the keys and log fields that the source writes in ASCII,
  and the value of an HTTP header, which reaches the code decoded as Latin-1: one \<open>char\<close> per
  character, each below 256.
\<close>

type_synonym pystr = "nat list"

definition ascii :: "string \<Rightarrow> pystr" where
  "ascii s = map of_char s"

section \<open>Python values read by the notifier\<close>

text \<open>
  The body of an HTTP response after \<^verbatim>\<open>response.json()\<close>: any JSON value. Numbers are
  integers here; a dictionary is an association list read with \<open>map_of\<close>.
\<close>

datatype json =
    JNull
  | JBool bool
  | JInt int
  | JStr string
  | JList "json list"
  | JDict "(string \<times> json) list"

text \<open>Python truthiness, as \<^verbatim>\<open>if result.get("ok"):\<close> applies it.\<close>

fun py_truthy :: "json \<Rightarrow> bool" where
  "py_truthy JNull = False"
| "py_truthy (JBool b) = b"
| "py_truthy (JInt n) = (n \<noteq> 0)"
| "py_truthy (JStr s) = (s \<noteq> [])"
| "py_truthy (JList xs) = (xs \<noteq> [])"
| "py_truthy (JDict kvs) = (kvs \<noteq> [])"

text \<open>\<^verbatim>\<open>d.get(key)\<close> and \<^verbatim>\<open>d.get(key, default)\<close> on a dictionary.\<close>

definition dict_get :: "(string \<times> json) list \<Rightarrow> string \<Rightarrow> json \<Rightarrow> json" where
  "dict_get kvs key dflt = (case map_of kvs key of None \<Rightarrow> dflt | Some v \<Rightarrow> v)"

subsection \<open>\<^verbatim>\<open>int(s)\<close> on a string\<close>

text \<open>
  Python's \<^verbatim>\<open>int\<close> applied to a string strips surrounding whitespace, reads an optional sign
  and then decimal digits, where single underscores may separate digits. Anything else raises
  \<^verbatim>\<open>ValueError\<close>, which is \<open>None\<close> here, and so does a literal of more than 4300 digits
  (the default of \<^verbatim>\<open>sys.set_int_max_str_digits\<close>). Among the characters below 256 the
  whitespace that \<^verbatim>\<open>int\<close> strips is TAB to CR, the space, NEL (0x85) and the no-break space
  (0xA0), and the decimal digits are \<^verbatim>\<open>0\<close> to \<^verbatim>\<open>9\<close> alone.
\<close>

definition py_isspace :: "char \<Rightarrow> bool" where
  "py_isspace c =
     (c \<in> set [CHR 0x09, CHR 0x0A, CHR 0x0B, CHR 0x0C, CHR 0x0D, CHR '' '', CHR 0x85, CHR 0xA0])"

definition py_strip :: "string \<Rightarrow> string" where
  "py_strip s = rev (dropWhile py_isspace (rev (dropWhile py_isspace s)))"

definition is_digit :: "char \<Rightarrow> bool" where
  "is_digit c = (48 \<le> (of_char c :: nat) \<and> (of_char c :: nat) \<le> 57)"

definition digit_val :: "char \<Rightarrow> nat" where
  "digit_val c = of_char c - 48"

fun py_digits :: "nat \<Rightarrow> string \<Rightarrow> nat option" where
  "py_digits acc [] = Some acc"
| "py_digits acc (c # cs) =
     (if is_digit c then py_digits (10 * acc + digit_val c) cs
      else if c = CHR ''_'' then
        (case cs of
           [] \<Rightarrow> None
         | d # ds \<Rightarrow> if is_digit d then py_digits (10 * acc + digit_val d) ds else None)
      else None)"

definition MAX_STR_DIGITS :: nat where "MAX_STR_DIGITS = 4300"

definition py_nat_literal :: "string \<Rightarrow> nat option" where
  "py_nat_literal s =
     (case s of
        [] \<Rightarrow> None
      | d # ds \<Rightarrow>
          if is_digit d \<and> length (filter is_digit s) \<le> MAX_STR_DIGITS
          then py_digits (digit_val d) ds else None)"

definition py_int_of_str :: "string \<Rightarrow> int option" where
  "py_int_of_str s =
     (case py_strip s of
        [] \<Rightarrow> None
      | c # cs \<Rightarrow>
          if c = CHR ''-'' then map_option (\<lambda>n. - int n) (py_nat_literal cs)
          else if c = CHR ''+'' then map_option int (py_nat_literal cs)
          else map_option int (py_nat_literal (c # cs)))"

section \<open>The HTTP channel\<close>

text \<open>
  What the notifier reads of a \<^verbatim>\<open>requests.Response\<close>: the status code, the
  \<^verbatim>\<open>Retry-After\<close> header when present, and the parsed body (\<open>None\<close> when the body is not
  JSON, where \<^verbatim>\<open>response.json()\<close> raises \<^verbatim>\<open>requests.exceptions.JSONDecodeError\<close>, a
  \<^verbatim>\<open>RequestException\<close>).
\<close>

record response =
  status_code :: int
  retry_after_header :: "string option"
  json_body :: "json option"

text \<open>What one call of \<^verbatim>\<open>requests.post\<close> does: it raises or it returns a response.\<close>

datatype post_result =
    PostTimeout
  | PostConnectionError
  | PostRequestException
  | PostResponse response

text \<open>The exceptions that occur below \<^verbatim>\<open>send_message\<close>.\<close>

datatype exn =
    Timeout
  | ConnectionError
  | HTTPError response
  | RequestException
  | AttributeError
  | ValueError
  | OverflowError

section \<open>Observable effects\<close>

datatype log_level = INFO | WARNING | ERROR

text \<open>The log lines of \<^verbatim>\<open>telegram_notifier.py\<close> and \<^verbatim>\<open>scheduler.py\<close>, by their parameters.\<close>

datatype log_msg =
    TimeoutOnAttempt int int
  | ConnectionErrorOnAttempt int int
  | RequestErrorOnAttempt int int
  | FailedAfterAttempts int
  | MessageSentSuccessfully pystr
  | TelegramApiError json
  | RateLimitedWaiting "string option"
  | InvalidBotToken
  | InvalidChatId
  | HttpErrorLogged int
  | RetryingIn int
  | ScheduledReminderAt string
  | SendingReminder string
  | ReminderSent string
  | ReminderFailed string

datatype event =
    Post pystr "(string \<times> pystr) list"
  | Sleep int
  | Log log_level log_msg

fun sleeps :: "event list \<Rightarrow> int list" where
  "sleeps [] = []"
| "sleeps (Sleep n # es) = n # sleeps es"
| "sleeps (e # es) = sleeps es"

fun posts :: "event list \<Rightarrow> nat" where
  "posts [] = 0"
| "posts (Post u p # es) = Suc (posts es)"
| "posts (e # es) = posts es"

section \<open>\<^verbatim>\<open>TelegramNotifier\<close>\<close>

definition DEFAULT_MAX_RETRIES :: int where "DEFAULT_MAX_RETRIES = 3"
definition BASE_API_URL :: pystr where "BASE_API_URL = ascii ''https://api.telegram.org/bot''"
definition PARSE_MODE :: pystr where "PARSE_MODE = ascii ''HTML''"
definition STATUS_RATE_LIMITED :: int where "STATUS_RATE_LIMITED = 429"
definition STATUS_UNAUTHORIZED :: int where "STATUS_UNAUTHORIZED = 401"
definition STATUS_BAD_REQUEST :: int where "STATUS_BAD_REQUEST = 400"
definition DEFAULT_RETRY_AFTER :: int where "DEFAULT_RETRY_AFTER = 5"

record telegram_notifier =
  bot_token :: pystr
  chat_id :: pystr
  api_url :: pystr

definition init_notifier :: "pystr \<Rightarrow> pystr \<Rightarrow> telegram_notifier" where
  "init_notifier token chat =
     \<lparr>bot_token = token, chat_id = chat, api_url = BASE_API_URL @ token @ ascii ''/sendMessage''\<rparr>"

text \<open>
  \<^verbatim>\<open>response.raise_for_status()\<close> raises \<^verbatim>\<open>HTTPError\<close> for the client and server error
  codes, 400 to 599, and returns otherwise.
\<close>

definition raises_for_status :: "response \<Rightarrow> bool" where
  "raises_for_status r = (400 \<le> status_code r \<and> status_code r < 600)"

text \<open>\<^verbatim>\<open>message[:50] + "..." if len(message) > 50 else message\<close>, counted in code points.\<close>

definition preview :: "pystr \<Rightarrow> pystr" where
  "preview message = (if length message > 50 then take 50 message @ ascii ''...'' else message)"

definition payload_of :: "telegram_notifier \<Rightarrow> pystr \<Rightarrow> (string \<times> pystr) list" where
  "payload_of self message =
     [(''chat_id'', chat_id self), (''text'', message), (''parse_mode'', PARSE_MODE)]"

text \<open>
  \<^verbatim>\<open>_send_request\<close>, given what \<^verbatim>\<open>requests.post\<close> did. A body that is JSON but not an
  object has no \<^verbatim>\<open>get\<close>: \<^verbatim>\<open>AttributeError\<close>.
\<close>

definition send_request ::
  "telegram_notifier \<Rightarrow> pystr \<Rightarrow> post_result \<Rightarrow> (exn + bool) \<times> event list" where
  "send_request self message res =
     (let sent = [Post (api_url self) (payload_of self message)]
      in case res of
           PostTimeout \<Rightarrow> (Inl Timeout, sent)
         | PostConnectionError \<Rightarrow> (Inl ConnectionError, sent)
         | PostRequestException \<Rightarrow> (Inl RequestException, sent)
         | PostResponse r \<Rightarrow>
             if raises_for_status r then (Inl (HTTPError r), sent)
             else (case json_body r of
                     None \<Rightarrow> (Inl RequestException, sent)
                   | Some (JDict kvs) \<Rightarrow>
                       if py_truthy (dict_get kvs ''ok'' JNull)
                       then (Inr True, sent @ [Log INFO (MessageSentSuccessfully (preview message))])
                       else (Inr False,
                             sent @ [Log ERROR (TelegramApiError
                                       (dict_get kvs ''description'' (JStr ''Unknown error'')))])
                   | Some _ \<Rightarrow> (Inl AttributeError, sent)))"

text \<open>
  \<^verbatim>\<open>time.sleep\<close> on an \<^verbatim>\<open>int\<close>: \<^verbatim>\<open>ValueError\<close> on a negative length, and
  \<^verbatim>\<open>OverflowError\<close> on one whose nanoseconds do not fit 64 bits, that is above 9223372036
  seconds.
\<close>

definition SLEEP_MAX :: int where "SLEEP_MAX = 9223372036"

definition time_sleep :: "int \<Rightarrow> exn + event list" where
  "time_sleep secs =
     (if secs < 0 then Inl ValueError
      else if SLEEP_MAX < secs then Inl OverflowError
      else Inr [Sleep secs])"

text \<open>
  \<^verbatim>\<open>_handle_http_error\<close>. \<^verbatim>\<open>int(retry_after)\<close> raises \<^verbatim>\<open>ValueError\<close> on a header that is
  not an integer literal; the warning is logged before that.
\<close>

definition retry_after_seconds :: "response \<Rightarrow> int option" where
  "retry_after_seconds r =
     (case retry_after_header r of None \<Rightarrow> Some DEFAULT_RETRY_AFTER | Some s \<Rightarrow> py_int_of_str s)"

definition handle_http_error ::
  "response \<Rightarrow> nat \<Rightarrow> int \<Rightarrow> (exn + bool) \<times> event list" where
  "handle_http_error r attempt max_retries =
     (if status_code r = STATUS_RATE_LIMITED then
        (let logged = [Log WARNING (RateLimitedWaiting (retry_after_header r))]
         in case retry_after_seconds r of
              None \<Rightarrow> (Inl ValueError, logged)
            | Some n \<Rightarrow>
                (case time_sleep n of
                   Inl e \<Rightarrow> (Inl e, logged)
                 | Inr slept \<Rightarrow> (Inr True, logged @ slept)))
      else if status_code r = STATUS_UNAUTHORIZED then (Inr False, [Log ERROR InvalidBotToken])
      else if status_code r = STATUS_BAD_REQUEST then (Inr False, [Log ERROR InvalidChatId])
      else (Inr (int attempt < max_retries - 1), [Log ERROR (HttpErrorLogged (status_code r))]))"

text \<open>
  \<^verbatim>\<open>_wait_before_retry\<close>. The length \<^verbatim>\<open>2 ** attempt\<close> is positive and stays below the limit
  of \<^verbatim>\<open>time.sleep\<close> for every attempt below 34, and attempt 34 is reached only after the
  sleeps of the attempts before it, more than five centuries.
\<close>

definition wait_before_retry :: "nat \<Rightarrow> int \<Rightarrow> event list" where
  "wait_before_retry attempt max_retries =
     (if int attempt < max_retries - 1
      then [Log INFO (RetryingIn (2 ^ attempt)), Sleep (2 ^ attempt)]
      else [])"

text \<open>
  One pass through the body of the \<^verbatim>\<open>for\<close> loop of \<^verbatim>\<open>send_message\<close>: it leaves the
  function (\<open>Leave\<close>, with the value returned or the exception raised) or goes on to the next
  attempt (\<open>Next\<close>).
\<close>

datatype control = Leave "exn + bool" | Next

definition attempt_body ::
  "telegram_notifier \<Rightarrow> pystr \<Rightarrow> int \<Rightarrow> nat \<Rightarrow> post_result \<Rightarrow> control \<times> event list" where
  "attempt_body self message max_retries attempt res =
     (let (outcome, evs) = send_request self message res;
          wait = wait_before_retry attempt max_retries
      in case outcome of
           Inr True \<Rightarrow> (Leave (Inr True), evs)
         | Inr False \<Rightarrow> (Next, evs @ wait)
         | Inl Timeout \<Rightarrow>
             (Next, evs @ [Log WARNING (TimeoutOnAttempt (int attempt + 1) max_retries)] @ wait)
         | Inl ConnectionError \<Rightarrow>
             (Next, evs @ [Log WARNING (ConnectionErrorOnAttempt (int attempt + 1) max_retries)] @ wait)
         | Inl (HTTPError r) \<Rightarrow>
             (case handle_http_error r attempt max_retries of
                (Inl e, hevs) \<Rightarrow> (Leave (Inl e), evs @ hevs)
              | (Inr False, hevs) \<Rightarrow> (Leave (Inr False), evs @ hevs)
              | (Inr True, hevs) \<Rightarrow> (Next, evs @ hevs @ wait))
         | Inl RequestException \<Rightarrow>
             (Next, evs @ [Log ERROR (RequestErrorOnAttempt (int attempt + 1) max_retries)] @ wait)
         | Inl e \<Rightarrow> (Leave (Inl e), evs))"

text \<open>
  The loop \<^verbatim>\<open>for attempt in range(max_retries)\<close> from \<open>attempt\<close> on, and what follows it.
  \<open>net k\<close> is what the \<open>k\<close>-th call of \<^verbatim>\<open>requests.post\<close> does.
\<close>

function send_loop ::
  "telegram_notifier \<Rightarrow> (nat \<Rightarrow> post_result) \<Rightarrow> pystr \<Rightarrow> int \<Rightarrow> nat \<Rightarrow> (exn + bool) \<times> event list" where
  "send_loop self net message max_retries attempt =
     (if int attempt < max_retries then
        (case attempt_body self message max_retries attempt (net attempt) of
           (Leave r, evs) \<Rightarrow> (r, evs)
         | (Next, evs) \<Rightarrow>
             (fst (send_loop self net message max_retries (Suc attempt)),
              evs @ snd (send_loop self net message max_retries (Suc attempt))))
      else (Inr False, [Log ERROR (FailedAfterAttempts max_retries)]))"
  by pat_completeness auto
termination
  by (relation "measure (\<lambda>(self, net, message, max_retries, attempt). nat (max_retries - int attempt))") auto

definition send_message ::
  "telegram_notifier \<Rightarrow> (nat \<Rightarrow> post_result) \<Rightarrow> pystr \<Rightarrow> int \<Rightarrow> (exn + bool) \<times> event list" where
  "send_message self net message max_retries = send_loop self net message max_retries 0"

definition test_connection ::
  "telegram_notifier \<Rightarrow> (nat \<Rightarrow> post_result) \<Rightarrow> pystr \<Rightarrow> (exn + bool) \<times> event list" where
  "test_connection self net canary = send_message self net canary DEFAULT_MAX_RETRIES"

subsection \<open>Reading a run of \<^verbatim>\<open>send_message\<close>\<close>

text \<open>
  Every attempt calls \<^verbatim>\<open>requests.post\<close> once, so the \<open>n\<close>-th \<open>Post\<close> of a trace starts
  attempt \<open>n\<close>, and \<open>attempt_events n\<close> are the events after it up to the next \<open>Post\<close>.
\<close>

fun is_post :: "event \<Rightarrow> bool" where
  "is_post (Post u p) = True"
| "is_post e = False"

fun attempt_events :: "nat \<Rightarrow> event list \<Rightarrow> event list" where
  "attempt_events n [] = []"
| "attempt_events 0 (Post u p # es) = takeWhile (\<lambda>e. \<not> is_post e) es"
| "attempt_events (Suc n) (Post u p # es) = attempt_events n es"
| "attempt_events n (e # es) = attempt_events n es"

text \<open>The exchanges on which \<^verbatim>\<open>_send_request\<close> returns \<^verbatim>\<open>True\<close>.\<close>

definition accepted :: "post_result \<Rightarrow> bool" where
  "accepted res =
     (case res of
        PostResponse r \<Rightarrow>
          \<not> raises_for_status r \<and>
          (case json_body r of
             Some (JDict kvs) \<Rightarrow> py_truthy (dict_get kvs ''ok'' JNull)
           | _ \<Rightarrow> False)
      | _ \<Rightarrow> False)"

definition has_status :: "int \<Rightarrow> post_result \<Rightarrow> bool" where
  "has_status s res = (case res of PostResponse r \<Rightarrow> status_code r = s | _ \<Rightarrow> False)"

subsection \<open>Example exchanges\<close>

definition http_response :: "int \<Rightarrow> string option \<Rightarrow> json option \<Rightarrow> post_result" where
  "http_response s h b = PostResponse \<lparr>status_code = s, retry_after_header = h, json_body = b\<rparr>"

definition api_ok :: "json option" where
  "api_ok = Some (JDict [(''ok'', JBool True), (''result'', JDict [(''message_id'', JInt 7)])])"

definition api_error :: "string \<Rightarrow> json option" where
  "api_error d = Some (JDict [(''ok'', JBool False), (''description'', JStr d)])"

definition notifier0 :: telegram_notifier where
  "notifier0 = init_notifier (ascii ''123:ABC'') (ascii ''42'')"




definition always_timeout :: "nat \<Rightarrow> post_result" where
  "always_timeout k = PostTimeout"

definition always_status :: "int \<Rightarrow> nat \<Rightarrow> post_result" where
  "always_status s k = http_response s None (api_error ''error'')"

definition retry_after_http_date :: "nat \<Rightarrow> post_result" where
  "retry_after_http_date k =
     http_response 429 (Some ''Wed, 21 Oct 2015 07:28:00 GMT'') (api_error ''Too Many Requests'')"

definition body_json_list :: "nat \<Rightarrow> post_result" where
  "body_json_list k = http_response 200 None (Some (JList []))"

definition found_with_ok_body :: "nat \<Rightarrow> post_result" where
  "found_with_ok_body k = http_response 302 None api_ok"

definition ok_is_one :: "nat \<Rightarrow> post_result" where
  "ok_is_one k = http_response 200 None (Some (JDict [(''ok'', JInt 1)]))"

definition multiple_choices_ok :: "nat \<Rightarrow> post_result" where
  "multiple_choices_ok k = http_response 300 None api_ok"

definition fails_twice_then_ok :: "nat \<Rightarrow> post_result" where
  "fails_twice_then_ok k = (if k < 2 then PostConnectionError else http_response 200 None api_ok)"

section \<open>\<^verbatim>\<open>Config\<close>\<close>

definition ENV_BOT_TOKEN :: string where "ENV_BOT_TOKEN = ''TELEGRAM_BOT_TOKEN''"
definition ENV_CHAT_ID :: string where "ENV_CHAT_ID = ''TELEGRAM_CHAT_ID''"

text \<open>The two class attributes, each \<^verbatim>\<open>str | None\<close> as \<^verbatim>\<open>os.getenv\<close> returns them.\<close>

record config =
  TELEGRAM_BOT_TOKEN :: "string option"
  TELEGRAM_CHAT_ID :: "string option"

text \<open>\<^verbatim>\<open>not x\<close> for \<^verbatim>\<open>x: str | None\<close>.\<close>

fun py_not :: "string option \<Rightarrow> bool" where
  "py_not None = True"
| "py_not (Some s) = (s = [])"

fun py_join :: "string \<Rightarrow> string list \<Rightarrow> string" where
  "py_join sep [] = []"
| "py_join sep [x] = x"
| "py_join sep (x # y # ys) = x @ sep @ py_join sep (y # ys)"

datatype config_log = ConfigurationValidated

text \<open>
  \<^verbatim>\<open>Config.validate\<close>: \<open>Inl\<close> carries the message of the \<^verbatim>\<open>ValueError\<close>, \<open>Inr\<close> what a
  normal return logged.
\<close>

definition validate :: "config \<Rightarrow> string + config_log list" where
  "validate cls =
     (let errors =
            (if py_not (TELEGRAM_BOT_TOKEN cls)
             then [ENV_BOT_TOKEN @ '' not set. Please add it to your .env file.''] else [])
          @ (if py_not (TELEGRAM_CHAT_ID cls)
             then [ENV_CHAT_ID @ '' not set. Please add it to your .env file.''] else [])
      in if errors \<noteq> [] then Inl (py_join [CHR 0x0A] errors)
         else Inr [ConfigurationValidated])"

section \<open>\<^verbatim>\<open>WaterReminderScheduler\<close>\<close>

text \<open>
  The table \<^verbatim>\<open>REMINDER_MESSAGES\<close>, in insertion order. Each message ends in an emoji, one
  code point.
\<close>

definition REMINDER_MESSAGES :: "(string \<times> pystr) list" where
  "REMINDER_MESSAGES =
     [(''09:00'', ascii ''Good morning! Time to drink water! '' @ [0x1F4A7]),
      (''12:00'', ascii ''Lunch time reminder! Stay hydrated! '' @ [0x1F30A]),
      (''15:00'', ascii ''Afternoon hydration break! '' @ [0x1F4A6]),
      (''18:00'', ascii ''Evening water reminder! '' @ [0x1F6B0]),
      (''21:00'', ascii ''Last call for water today! Good night! '' @ [0x1F319])]"

subsection \<open>The job table of the \<^verbatim>\<open>schedule\<close> library\<close>

text \<open>
  An instant of local wall-clock time: a day number and the second of that day.
\<close>

record instant =
  date :: int
  second_of_day :: nat

definition instant_le :: "instant \<Rightarrow> instant \<Rightarrow> bool" where
  "instant_le a b = (date a < date b \<or> (date a = date b \<and> second_of_day a \<le> second_of_day b))"

definition instant_less :: "instant \<Rightarrow> instant \<Rightarrow> bool" where
  "instant_less a b = (date a < date b \<or> (date a = date b \<and> second_of_day a < second_of_day b))"

text \<open>
  Modelled from the spec: the scheduled job of the \<^verbatim>\<open>schedule\<close> library, which is not under
  \<^verbatim>\<open>src/\<close>. A job is bound to one time of day (hour and minute), carries the arguments
  \<^verbatim>\<open>_setup_schedule\<close> gives to \<^verbatim>\<open>do\<close>, and owns its next-fire instant.
\<close>

record job =
  at_hour :: nat
  at_minute :: nat
  job_message :: pystr
  job_time_str :: string
  next_run :: instant

definition at_second :: "job \<Rightarrow> nat" where
  "at_second j = 3600 * at_hour j + 60 * at_minute j"

text \<open>
  Modelled from the spec: reading a time of day \<^verbatim>\<open>HH:MM\<close>, as \<^verbatim>\<open>every().day.at\<close> of the
  \<^verbatim>\<open>schedule\<close> library (not under \<^verbatim>\<open>src/\<close>) does; \<open>None\<close> where it rejects the string.
\<close>

definition parse_time_str :: "string \<Rightarrow> (nat \<times> nat) option" where
  "parse_time_str s =
     (case s of
        [h1, h2, c, m1, m2] \<Rightarrow>
          if is_digit h1 \<and> is_digit h2 \<and> c = CHR '':'' \<and> is_digit m1 \<and> is_digit m2
             \<and> 10 * digit_val h1 + digit_val h2 < 24 \<and> 10 * digit_val m1 + digit_val m2 < 60
          then Some (10 * digit_val h1 + digit_val h2, 10 * digit_val m1 + digit_val m2)
          else None
      | _ \<Rightarrow> None)"

text \<open>
  Modelled from the spec: construction of a job by the \<^verbatim>\<open>schedule\<close> library (not under
  \<^verbatim>\<open>src/\<close>). Its next-fire instant is today at its time of day when that has not passed at
  the time of construction, and tomorrow otherwise.
\<close>

definition first_run :: "instant \<Rightarrow> nat \<Rightarrow> nat \<Rightarrow> instant" where
  "first_run now h m =
     (if second_of_day now < 3600 * h + 60 * m
      then \<lparr>date = date now, second_of_day = 3600 * h + 60 * m\<rparr>
      else \<lparr>date = date now + 1, second_of_day = 3600 * h + 60 * m\<rparr>)"

definition every_day_at_do :: "instant \<Rightarrow> string \<Rightarrow> pystr \<Rightarrow> job option" where
  "every_day_at_do now time_str message =
     (case parse_time_str time_str of
        None \<Rightarrow> None
      | Some (h, m) \<Rightarrow>
          Some \<lparr>at_hour = h, at_minute = m, job_message = message, job_time_str = time_str,
                next_run = first_run now h m\<rparr>)"

text \<open>
  \<^verbatim>\<open>_setup_schedule\<close> over a table: one job per entry, appended to the registry, and one log
  line each. \<open>None\<close> when the library rejects a time string.
\<close>

fun setup_schedule ::
  "instant \<Rightarrow> (string \<times> pystr) list \<Rightarrow> job list \<Rightarrow> (job list \<times> event list) option" where
  "setup_schedule now [] jobs = Some (jobs, [])"
| "setup_schedule now ((time_str, message) # rest) jobs =
     (case every_day_at_do now time_str message of
        None \<Rightarrow> None
      | Some j \<Rightarrow>
          (case setup_schedule now rest (jobs @ [j]) of
             None \<Rightarrow> None
           | Some (jobs', evs) \<Rightarrow> Some (jobs', Log INFO (ScheduledReminderAt time_str) # evs)))"

text \<open>
  \<^verbatim>\<open>_send_reminder\<close>: one call of \<^verbatim>\<open>send_message\<close> with the default \<^verbatim>\<open>max_retries\<close>, and a
  log line for either outcome. It returns \<^verbatim>\<open>None\<close>; an exception of \<^verbatim>\<open>send_message\<close> passes
  through.
\<close>

definition send_reminder ::
  "telegram_notifier \<Rightarrow> (nat \<Rightarrow> post_result) \<Rightarrow> pystr \<Rightarrow> string \<Rightarrow> (exn + unit) \<times> event list" where
  "send_reminder notifier net message time_str =
     (case send_message notifier net message DEFAULT_MAX_RETRIES of
        (Inl e, evs) \<Rightarrow> (Inl e, Log INFO (SendingReminder time_str) # evs)
      | (Inr success, evs) \<Rightarrow>
          (Inr (),
           Log INFO (SendingReminder time_str) # evs
           @ [if success then Log INFO (ReminderSent time_str)
              else Log ERROR (ReminderFailed time_str)]))"

text \<open>
  Modelled from the spec: firing one job at the instant \<open>now\<close>, as \<^verbatim>\<open>run_pending\<close> of the
  \<^verbatim>\<open>schedule\<close> library (not under \<^verbatim>\<open>src/\<close>) does for a due job. Delivery is invoked
  synchronously, then the next-fire instant becomes the same time of day on the following
  calendar day. An exception of the delivery leaves the job as it was.
\<close>

definition run_job ::
  "telegram_notifier \<Rightarrow> (nat \<Rightarrow> post_result) \<Rightarrow> instant \<Rightarrow> job \<Rightarrow> (exn + job) \<times> event list" where
  "run_job notifier net now j =
     (case send_reminder notifier net (job_message j) (job_time_str j) of
        (Inl e, evs) \<Rightarrow> (Inl e, evs)
      | (Inr u, evs) \<Rightarrow>
          (Inr (j\<lparr>next_run := \<lparr>date = date now + 1, second_of_day = at_second j\<rparr>\<rparr>), evs))"

text \<open>
  Modelled from the spec: one poll at the instant \<open>now\<close> (\<^verbatim>\<open>schedule.run_pending\<close>, not under
  \<^verbatim>\<open>src/\<close>): every job whose next-fire instant has passed fires; the others are left alone.
  \<open>nets i\<close> is what the network does during the delivery of the \<open>i\<close>-th job of the table.
\<close>

fun run_pending_from ::
  "telegram_notifier \<Rightarrow> (nat \<Rightarrow> nat \<Rightarrow> post_result) \<Rightarrow> instant \<Rightarrow> nat \<Rightarrow> job list
     \<Rightarrow> (exn + job list) \<times> event list" where
  "run_pending_from notifier nets now i [] = (Inr [], [])"
| "run_pending_from notifier nets now i (j # js) =
     (if instant_le (next_run j) now then
        (case run_job notifier (nets i) now j of
           (Inl e, evs) \<Rightarrow> (Inl e, evs)
         | (Inr j', evs) \<Rightarrow>
             (case run_pending_from notifier nets now (Suc i) js of
                (Inl e, evs') \<Rightarrow> (Inl e, evs @ evs')
              | (Inr js', evs') \<Rightarrow> (Inr (j' # js'), evs @ evs')))
      else
        (case run_pending_from notifier nets now (Suc i) js of
           (Inl e, evs') \<Rightarrow> (Inl e, evs')
         | (Inr js', evs') \<Rightarrow> (Inr (j # js'), evs')))"

definition run_pending ::
  "telegram_notifier \<Rightarrow> (nat \<Rightarrow> nat \<Rightarrow> post_result) \<Rightarrow> instant \<Rightarrow> job list
     \<Rightarrow> (exn + job list) \<times> event list" where
  "run_pending notifier nets now jobs = run_pending_from notifier nets now 0 jobs"

text \<open>
  Modelled from the spec: \<^verbatim>\<open>schedule.next_run()\<close> (not under \<^verbatim>\<open>src/\<close>), the soonest
  next-fire instant across all jobs, \<open>None\<close> for an empty table.
\<close>

fun schedule_next_run :: "job list \<Rightarrow> instant option" where
  "schedule_next_run [] = None"
| "schedule_next_run (j # js) =
     (case schedule_next_run js of
        None \<Rightarrow> Some (next_run j)
      | Some t \<Rightarrow> Some (if instant_le (next_run j) t then next_run j else t))"

text \<open>\<^verbatim>\<open>strftime('%H:%M')\<close>: hour and minute, two digits each.\<close>

definition two_digits :: "nat \<Rightarrow> string" where
  "two_digits n = [''0123456789'' ! (n div 10 mod 10), ''0123456789'' ! (n mod 10)]"

definition strftime_HM :: "instant \<Rightarrow> string" where
  "strftime_HM t =
     two_digits (second_of_day t div 3600) @ '':'' @ two_digits (second_of_day t div 60 mod 60)"

text \<open>\<^verbatim>\<open>get_next_reminder\<close>; a \<^verbatim>\<open>datetime\<close> is always truthy, \<^verbatim>\<open>None\<close> never.\<close>

definition get_next_reminder :: "job list \<Rightarrow> string" where
  "get_next_reminder jobs =
     (case schedule_next_run jobs of
        Some t \<Rightarrow> ''Next reminder at '' @ strftime_HM t
      | None \<Rightarrow> ''No reminders scheduled'')"

subsection \<open>Example table\<close>

definition morning :: instant where
  "morning = \<lparr>date = 100, second_of_day = 32340\<rparr>"

definition just_after_nine :: instant where
  "just_after_nine = \<lparr>date = 100, second_of_day = 32401\<rparr>"

definition job_0900 :: job where
  "job_0900 = \<lparr>at_hour = 9, at_minute = 0, job_message = ascii ''Drink water'', job_time_str = ''09:00'',
               next_run = \<lparr>date = 100, second_of_day = 32400\<rparr>\<rparr>"

definition job_1505 :: job where
  "job_1505 = \<lparr>at_hour = 15, at_minute = 5, job_message = ascii ''Stretch'', job_time_str = ''15:05'',
               next_run = \<lparr>date = 100, second_of_day = 54300\<rparr>\<rparr>"

definition nets_json_list :: "nat \<Rightarrow> nat \<Rightarrow> post_result" where
  "nets_json_list i = body_json_list"

definition job_2100 :: job where
  "job_2100 = \<lparr>at_hour = 21, at_minute = 0, job_message = ascii ''Good night'', job_time_str = ''21:00'',
               next_run = \<lparr>date = 99, second_of_day = 75600\<rparr>\<rparr>"

section \<open>The loop of \<^verbatim>\<open>send_message\<close>\<close>

declare send_loop.simps [simp del]

lemmas notifier_consts =
  STATUS_RATE_LIMITED_def STATUS_UNAUTHORIZED_def STATUS_BAD_REQUEST_def DEFAULT_RETRY_AFTER_def
  DEFAULT_MAX_RETRIES_def SLEEP_MAX_def

lemmas notifier_defs =
  attempt_body_def send_request_def handle_http_error_def wait_before_retry_def time_sleep_def
  raises_for_status_def retry_after_seconds_def dict_get_def notifier_consts

lemmas example_defs =
  http_response_def api_ok_def api_error_def notifier0_def init_notifier_def

lemmas py_int_defs =
  py_int_of_str_def py_strip_def py_isspace_def py_nat_literal_def is_digit_def digit_val_def
  MAX_STR_DIGITS_def

text \<open>Induction upwards from an attempt index to the bound of the loop.\<close>

lemma upto_bound_induct:
  assumes step: "\<And>k. (int k < m \<Longrightarrow> P (Suc k)) \<Longrightarrow> P k"
  shows "P k"
proof (induction "nat (m - int k)" arbitrary: k)
  case 0
  then have "\<not> int k < m" by simp
  then show ?case using step by blast
next
  case (Suc d)
  show ?case
  proof (rule step)
    assume "int k < m"
    with Suc.hyps(2) have "d = nat (m - int (Suc k))" by simp
    then show "P (Suc k)" by (rule Suc.hyps(1))
  qed
qed

lemma send_loop_done:
  "\<not> int k < m \<Longrightarrow> send_loop self net msg m k = (Inr False, [Log ERROR (FailedAfterAttempts m)])"
  by (simp add: send_loop.simps)

lemma send_loop_step:
  "int k < m \<Longrightarrow> attempt_body self msg m k (net k) = (c, evs) \<Longrightarrow>
   send_loop self net msg m k =
     (case c of
        Leave r \<Rightarrow> (r, evs)
      | Next \<Rightarrow> (fst (send_loop self net msg m (Suc k)), evs @ snd (send_loop self net msg m (Suc k))))"
  by (simp add: send_loop.simps)

section \<open>An empty attempt budget\<close>

text \<open>
  Claim C9. For every message, \<^verbatim>\<open>send_message\<close> with \<^verbatim>\<open>max_retries\<close> zero or negative
  returns \<^verbatim>\<open>False\<close> at once: the loop body never runs, so no request is posted and nothing
  sleeps; the only effect is the final error log line.
\<close>

theorem send_message_without_budget:
  "max_retries \<le> 0 \<Longrightarrow>
   send_message self net message max_retries = (Inr False, [Log ERROR (FailedAfterAttempts max_retries)])
   \<and> posts (snd (send_message self net message max_retries)) = 0
   \<and> sleeps (snd (send_message self net message max_retries)) = []"
  by (simp add: send_message_def send_loop_done)

theorem send_message_without_budget_witness:
  "send_message notifier0 always_timeout (ascii ''hi'') 0 = (Inr False, [Log ERROR (FailedAfterAttempts 0)])
   \<and> send_message notifier0 always_timeout (ascii ''hi'') (- 2) = (Inr False, [Log ERROR (FailedAfterAttempts (- 2))])
   \<and> posts (snd (send_message notifier0 always_timeout (ascii ''hi'') 0)) = 0
   \<and> sleeps (snd (send_message notifier0 always_timeout (ascii ''hi'') 0)) = []"
  using send_message_without_budget [of 0 notifier0 always_timeout "ascii ''hi''"]
    send_message_without_budget [of "- 2" notifier0 always_timeout "ascii ''hi''"]
  by simp

section \<open>Fatal statuses\<close>

text \<open>
  Claim C5. When the first attempt of \<^verbatim>\<open>send_message\<close> receives HTTP 401 or HTTP 400, the
  call returns \<^verbatim>\<open>False\<close> after exactly one request and without any sleep.
\<close>

theorem send_message_fatal_status:
  assumes "0 < max_retries"
    and "net 0 = PostResponse r"
    and "status_code r = 401 \<or> status_code r = 400"
  shows "fst (send_message self net message max_retries) = Inr False
    \<and> posts (snd (send_message self net message max_retries)) = 1
    \<and> sleeps (snd (send_message self net message max_retries)) = []"
proof -
  have k: "int 0 < max_retries" using assms(1) by simp
  obtain c evs where b: "attempt_body self message max_retries 0 (net 0) = (c, evs)"
    by (cases "attempt_body self message max_retries 0 (net 0)")
  have "c = Leave (Inr False) \<and> posts evs = 1 \<and> sleeps evs = []"
    using b assms(2,3) by (auto simp: notifier_defs)
  then show ?thesis
    by (simp add: send_message_def send_loop_step[where net = net, OF k b])
qed

theorem send_message_fatal_status_witness:
  "fst (send_message notifier0 (always_status 401) (ascii ''hi'') 3) = Inr False
   \<and> posts (snd (send_message notifier0 (always_status 401) (ascii ''hi'') 3)) = 1
   \<and> sleeps (snd (send_message notifier0 (always_status 401) (ascii ''hi'') 3)) = []
   \<and> fst (send_message notifier0 (always_status 400) (ascii ''hi'') 3) = Inr False
   \<and> posts (snd (send_message notifier0 (always_status 400) (ascii ''hi'') 3)) = 1
   \<and> sleeps (snd (send_message notifier0 (always_status 400) (ascii ''hi'') 3)) = []"
  using send_message_fatal_status [of 3 "always_status 401"
      "\<lparr>status_code = 401, retry_after_header = None, json_body = api_error ''error''\<rparr>"
      notifier0 "ascii ''hi''"]
    send_message_fatal_status [of 3 "always_status 400"
      "\<lparr>status_code = 400, retry_after_header = None, json_body = api_error ''error''\<rparr>"
      notifier0 "ascii ''hi''"]
  by (simp add: always_status_def http_response_def)

section \<open>Exceptions that leave \<^verbatim>\<open>send_message\<close>\<close>

text \<open>
  Claim C2 says that \<^verbatim>\<open>send_message\<close> never raises. Two exchanges on which it does: a 429
  response whose \<^verbatim>\<open>Retry-After\<close> header is an HTTP date, where \<^verbatim>\<open>int(retry_after)\<close> raises
  \<^verbatim>\<open>ValueError\<close> inside the \<^verbatim>\<open>except HTTPError\<close> handler, and a 200 response whose JSON body
  is a list, where \<^verbatim>\<open>result.get\<close> raises \<^verbatim>\<open>AttributeError\<close>. Neither is a
  \<^verbatim>\<open>RequestException\<close>, so no handler of the loop catches it.
\<close>

theorem send_message_raises:
  "fst (send_message notifier0 retry_after_http_date (ascii ''hi'') 3) = Inl ValueError
   \<and> fst (send_message notifier0 body_json_list (ascii ''hi'') 3) = Inl AttributeError"
  by (simp add: send_message_def send_loop.simps notifier_defs example_defs py_int_defs
        retry_after_http_date_def body_json_list_def)

section \<open>Runs of the loop, attempt by attempt\<close>

lemma posts_append: "posts (xs @ ys) = posts xs + posts ys"
  by (induction xs rule: posts.induct) auto

lemma sleeps_append: "sleeps (xs @ ys) = sleeps xs @ sleeps ys"
  by (induction xs rule: sleeps.induct) auto

lemma no_post_takeWhile:
  "posts t = 0 \<Longrightarrow>
   takeWhile (\<lambda>e. \<not> is_post e) (t @ rest) = t @ takeWhile (\<lambda>e. \<not> is_post e) rest"
  by (induction t rule: posts.induct) auto

lemma no_post_takeWhile_all: "posts t = 0 \<Longrightarrow> takeWhile (\<lambda>e. \<not> is_post e) t = t"
  by (induction t rule: posts.induct) auto

lemma no_post_attempt_events: "posts t = 0 \<Longrightarrow> attempt_events n (t @ rest) = attempt_events n rest"
  by (induction t rule: posts.induct) auto

lemma send_request_shape:
  "snd (send_request self msg res) =
     Post (api_url self) (payload_of self msg) # tl (snd (send_request self msg res))"
  "posts (tl (snd (send_request self msg res))) = 0"
  "sleeps (tl (snd (send_request self msg res))) = []"
  by (auto simp: send_request_def Let_def split: post_result.splits option.splits json.splits)

lemma handle_http_error_posts: "handle_http_error r k m = (x, evs) \<Longrightarrow> posts evs = 0"
  by (auto simp: handle_http_error_def time_sleep_def Let_def split: option.splits if_splits)

lemma wait_posts: "posts (wait_before_retry k m) = 0"
  by (simp add: wait_before_retry_def)

lemma attempt_body_shape:
  "snd (attempt_body self msg m k res) =
     Post (api_url self) (payload_of self msg) # tl (snd (attempt_body self msg m k res))"
  "posts (tl (snd (attempt_body self msg m k res))) = 0"
proof -
  obtain o1 t where o1: "send_request self msg res = (o1, Post (api_url self) (payload_of self msg) # t)"
    and t: "posts t = 0"
    using send_request_shape(1,2)[of self msg res] by (cases "send_request self msg res") auto
  show "snd (attempt_body self msg m k res) =
     Post (api_url self) (payload_of self msg) # tl (snd (attempt_body self msg m k res))"
    by (auto simp: attempt_body_def o1 Let_def split: sum.splits bool.splits exn.splits prod.splits)
  show "posts (tl (snd (attempt_body self msg m k res))) = 0"
    using t wait_posts[of k m]
    by (auto simp: attempt_body_def o1 Let_def posts_append dest: handle_http_error_posts
          split: sum.splits bool.splits exn.splits prod.splits)
qed

lemma attempt_body_cases:
  obtains c t where
    "attempt_body self msg m k res = (c, Post (api_url self) (payload_of self msg) # t)" "posts t = 0"
  using attempt_body_shape[of self msg m k res]
  by (cases "attempt_body self msg m k res") auto

lemma send_loop_posts_pos: "int k < m \<Longrightarrow> 0 < posts (snd (send_loop self net msg m k))"
proof -
  assume k: "int k < m"
  obtain c t where b: "attempt_body self msg m k (net k) = (c, Post (api_url self) (payload_of self msg) # t)"
    by (rule attempt_body_cases)
  show ?thesis
    by (cases c) (simp_all add: send_loop_step[where net = net, OF k b])
qed

lemma send_loop_prefix_sleeps:
  "sleeps (takeWhile (\<lambda>e. \<not> is_post e) (snd (send_loop self net msg m k))) = []"
proof (cases "int k < m")
  case False
  then show ?thesis by (simp add: send_loop_done)
next
  case True
  obtain c t where b: "attempt_body self msg m k (net k) = (c, Post (api_url self) (payload_of self msg) # t)"
    by (rule attempt_body_cases)
  show ?thesis
    by (cases c) (simp_all add: send_loop_step[where net = net, OF True b])
qed

text \<open>
  What a run from attempt \<open>k\<close> does at its \<open>j\<close>-th request: the request is attempt \<open>k + j\<close> of
  the loop, within the budget; the sleeps up to the next request are those of the loop body;
  and the run ends there exactly when the body leaves the function or the budget is used up.
\<close>

lemma send_loop_run:
  "j < posts (snd (send_loop self net msg m k)) \<Longrightarrow>
   int (k + j) < m \<and>
   sleeps (attempt_events j (snd (send_loop self net msg m k))) =
     sleeps (snd (attempt_body self msg m (k + j) (net (k + j)))) \<and>
   (case fst (attempt_body self msg m (k + j) (net (k + j))) of
      Leave r \<Rightarrow>
        posts (snd (send_loop self net msg m k)) = Suc j \<and> fst (send_loop self net msg m k) = r
    | Next \<Rightarrow>
        if int (Suc (k + j)) < m then Suc j < posts (snd (send_loop self net msg m k))
        else posts (snd (send_loop self net msg m k)) = Suc j
             \<and> fst (send_loop self net msg m k) = Inr False)"
proof (induction k arbitrary: j rule: upto_bound_induct[where m = m])
  case (1 k)
  show ?case
  proof (cases "int k < m")
    case False
    with "1.prems" show ?thesis by (simp add: send_loop_done)
  next
    case True
    obtain c t where b: "attempt_body self msg m k (net k) = (c, Post (api_url self) (payload_of self msg) # t)"
      and t: "posts t = 0"
      by (rule attempt_body_cases)
    show ?thesis
    proof (cases c)
      case (Leave r)
      note eq = send_loop_step[where net = net, OF True b]
      from "1.prems" t Leave have "j = 0" by (simp add: eq)
      with Leave True t show ?thesis
        by (simp add: eq b no_post_takeWhile_all)
    next
      case Next
      note eq = send_loop_step[where net = net, OF True b, unfolded Next control.case]
      show ?thesis
      proof (cases j)
        case 0
        show ?thesis
        proof (cases "int (Suc k) < m")
          case True
          with send_loop_posts_pos[OF True, of self net msg] 0 Next t \<open>int k < m\<close> show ?thesis
            by (simp add: eq b posts_append sleeps_append no_post_takeWhile send_loop_prefix_sleeps)
        next
          case False
          with 0 Next t \<open>int k < m\<close> show ?thesis
            by (simp add: eq b posts_append sleeps_append no_post_takeWhile send_loop_done)
        qed
      next
        case (Suc j')
        with "1.prems" t have "j' < posts (snd (send_loop self net msg m (Suc k)))"
          by (simp add: eq posts_append)
        from "1.IH"[OF True this] Suc t show ?thesis
          by (simp add: eq posts_append no_post_attempt_events split: control.splits if_splits)
      qed
    qed
  qed
qed

text \<open>The same for \<^verbatim>\<open>send_message\<close>, which is the run from attempt 0.\<close>

lemma send_message_run:
  assumes "j < posts (snd (send_message self net msg m))"
  shows "int j < m"
    and "sleeps (attempt_events j (snd (send_message self net msg m))) =
           sleeps (snd (attempt_body self msg m j (net j)))"
    and "fst (attempt_body self msg m j (net j)) = Leave r \<Longrightarrow>
           posts (snd (send_message self net msg m)) = Suc j \<and> fst (send_message self net msg m) = r"
    and "fst (attempt_body self msg m j (net j)) = Next \<Longrightarrow> int (Suc j) < m \<Longrightarrow>
           Suc j < posts (snd (send_message self net msg m))"
    and "fst (attempt_body self msg m j (net j)) = Next \<Longrightarrow> \<not> int (Suc j) < m \<Longrightarrow>
           posts (snd (send_message self net msg m)) = Suc j
           \<and> fst (send_message self net msg m) = Inr False"
  using send_loop_run[of j self net msg m 0] assms
  by (simp_all add: send_message_def)

lemma send_message_posts_pos: "0 < m \<Longrightarrow> 0 < posts (snd (send_message self net msg m))"
  using send_loop_posts_pos[of 0 m self net msg] by (simp add: send_message_def)

text \<open>The loop body on the kinds of exchange the claims speak of.\<close>

lemma attempt_body_accepted:
  "accepted res \<Longrightarrow>
   attempt_body self msg m k res =
     (Leave (Inr True),
      [Post (api_url self) (payload_of self msg), Log INFO (MessageSentSuccessfully (preview msg))])"
  by (auto simp: accepted_def attempt_body_def send_request_def
        split: post_result.splits option.splits json.splits)

lemma attempt_body_not_accepted:
  "\<not> accepted res \<Longrightarrow> fst (attempt_body self msg m k res) \<noteq> Leave (Inr True)"
  by (auto simp: accepted_def attempt_body_def send_request_def handle_http_error_def time_sleep_def Let_def
        split: post_result.splits option.splits json.splits prod.splits sum.splits bool.splits if_splits)


lemma attempt_body_other_http_error:
  assumes "400 \<le> status_code r" and "status_code r < 600"
    and "status_code r \<noteq> 429" and "status_code r \<noteq> 401" and "status_code r \<noteq> 400"
  shows "fst (attempt_body self msg m k (PostResponse r)) =
           (if int (Suc k) < m then Next else Leave (Inr False))"
    and "sleeps (snd (attempt_body self msg m k (PostResponse r))) =
           (if int (Suc k) < m then [2 ^ k] else [])"
  using assms
  by (auto simp: attempt_body_def send_request_def handle_http_error_def wait_before_retry_def
        raises_for_status_def notifier_consts Let_def)

lemma attempt_body_backoff:
  assumes "\<not> has_status 429 res"
  shows "sleeps (snd (attempt_body self msg m k res)) =
           (if fst (attempt_body self msg m k res) = Next \<and> int (Suc k) < m then [2 ^ k] else [])"
  using assms
  by (auto simp: has_status_def attempt_body_def send_request_def handle_http_error_def
        wait_before_retry_def notifier_consts Let_def
        split: post_result.splits option.splits json.splits prod.splits sum.splits bool.splits if_splits)


lemmas eval_defs = send_message_def send_loop.simps notifier_defs example_defs

section \<open>Rate limiting\<close>




section \<open>Exponential backoff\<close>

text \<open>
  Claim C4 says that the backoff wait before attempt \<open>k\<close> is \<open>2 ^ k\<close> seconds. With two
  attempts that both time out there is a single sleep, of 1 second, between attempt 0 and
  attempt 1: nothing precedes attempt 0, and the wait before attempt 1 is \<open>2 ^ 0\<close>, not
  \<open>2 ^ 1\<close>.
\<close>

theorem backoff_before_attempt_counterexample:
  "posts (snd (send_message notifier0 always_timeout (ascii ''hi'') 2)) = 2
   \<and> sleeps (snd (send_message notifier0 always_timeout (ascii ''hi'') 2)) = [1]
   \<and> sleeps (attempt_events 0 (snd (send_message notifier0 always_timeout (ascii ''hi'') 2))) = [1]
   \<and> sleeps (attempt_events 1 (snd (send_message notifier0 always_timeout (ascii ''hi'') 2))) = []"
  by (simp add: eval_defs always_timeout_def)

text \<open>
  Claim C4, amended. Nothing sleeps before attempt 0. After an attempt \<open>j\<close> that was not rate
  limited, the call sleeps exactly \<open>2 ^ j\<close> seconds when another attempt follows, and not at
  all when attempt \<open>j\<close> is the last one made. So the backoff wait before attempt \<open>k \<ge> 1\<close> is
  \<open>2 ^ (k - 1)\<close> seconds.
\<close>

theorem backoff_after_attempt:
  "sleeps (takeWhile (\<lambda>e. \<not> is_post e) (snd (send_message self net message max_retries))) = []
   \<and> (j < posts (snd (send_message self net message max_retries)) \<and> \<not> has_status 429 (net j)
      \<longrightarrow> sleeps (attempt_events j (snd (send_message self net message max_retries))) =
           (if Suc j < posts (snd (send_message self net message max_retries)) then [2 ^ j] else []))"
proof (intro conjI impI)
  show "sleeps (takeWhile (\<lambda>e. \<not> is_post e) (snd (send_message self net message max_retries))) = []"
    by (simp add: send_message_def send_loop_prefix_sleeps)
next
  assume a: "j < posts (snd (send_message self net message max_retries)) \<and> \<not> has_status 429 (net j)"
  then have j: "j < posts (snd (send_message self net message max_retries))"
    and nrl: "\<not> has_status 429 (net j)" by simp_all
  note run = send_message_run[OF j]
  let ?b = "attempt_body self message max_retries j (net j)"
  have sl: "sleeps (attempt_events j (snd (send_message self net message max_retries))) =
      (if fst ?b = Next \<and> int (Suc j) < max_retries then [2 ^ j] else [])"
    using run(2) attempt_body_backoff[OF nrl, of self message max_retries j] by simp
  show "sleeps (attempt_events j (snd (send_message self net message max_retries))) =
           (if Suc j < posts (snd (send_message self net message max_retries)) then [2 ^ j] else [])"
  proof (cases "fst ?b")
    case (Leave r)
    with run(3)[OF Leave] sl show ?thesis by simp
  next
    case Next
    show ?thesis
    proof (cases "int (Suc j) < max_retries")
      case True
      with run(4)[OF Next True] sl Next show ?thesis by simp
    next
      case False
      with run(5)[OF Next False] sl Next show ?thesis by simp
    qed
  qed
qed

theorem backoff_after_attempt_witness:
  "sleeps (takeWhile (\<lambda>e. \<not> is_post e) (snd (send_message notifier0 fails_twice_then_ok (ascii ''hi'') 3))) = []
   \<and> sleeps (attempt_events 0 (snd (send_message notifier0 fails_twice_then_ok (ascii ''hi'') 3))) = [1]
   \<and> sleeps (attempt_events 1 (snd (send_message notifier0 fails_twice_then_ok (ascii ''hi'') 3))) = [2]
   \<and> sleeps (attempt_events 2 (snd (send_message notifier0 fails_twice_then_ok (ascii ''hi'') 3))) = []
   \<and> fst (send_message notifier0 fails_twice_then_ok (ascii ''hi'') 3) = Inr True"
  using backoff_after_attempt [of notifier0 fails_twice_then_ok "ascii ''hi''" 3 0]
    backoff_after_attempt [of notifier0 fails_twice_then_ok "ascii ''hi''" 3 1]
    backoff_after_attempt [of notifier0 fails_twice_then_ok "ascii ''hi''" 3 2]
  by (simp add: eval_defs fails_twice_then_ok_def has_status_def)

section \<open>When \<^verbatim>\<open>send_message\<close> returns \<^verbatim>\<open>True\<close>\<close>

text \<open>
  Claim C3 says that \<^verbatim>\<open>send_message\<close> returns \<^verbatim>\<open>True\<close> only when an attempt received an
  HTTP 2xx response whose body has \<^verbatim>\<open>"ok": true\<close>. Two exchanges on which it returns
  \<^verbatim>\<open>True\<close> without one: a 302 response with an ok body, which \<^verbatim>\<open>raise_for_status\<close> lets
  through, and a 200 response whose body is \<^verbatim>\<open>{"ok": 1}\<close>, which is truthy.
\<close>

theorem send_message_true_counterexample:
  "has_status 302 (found_with_ok_body 0)
   \<and> posts (snd (send_message notifier0 found_with_ok_body (ascii ''hi'') 1)) = 1
   \<and> fst (send_message notifier0 found_with_ok_body (ascii ''hi'') 1) = Inr True
   \<and> ok_is_one 0 = http_response 200 None (Some (JDict [(''ok'', JInt 1)]))
   \<and> posts (snd (send_message notifier0 ok_is_one (ascii ''hi'') 1)) = 1
   \<and> fst (send_message notifier0 ok_is_one (ascii ''hi'') 1) = Inr True"
  by (simp add: eval_defs found_with_ok_body_def ok_is_one_def has_status_def)

lemma accepted_2xx_ok_true:
  "200 \<le> status_code r \<Longrightarrow> status_code r < 300 \<Longrightarrow> json_body r = Some (JDict kvs) \<Longrightarrow>
   map_of kvs ''ok'' = Some (JBool True) \<Longrightarrow> accepted (PostResponse r)"
  by (simp add: accepted_def raises_for_status_def dict_get_def)

text \<open>
  Claim C3, amended. \<^verbatim>\<open>send_message\<close> returns \<^verbatim>\<open>True\<close> if and only if some attempt it made,
  all of them within the \<^verbatim>\<open>max_retries\<close> budget, received a response that
  \<^verbatim>\<open>raise_for_status\<close> accepts (a status outside 400 to 599) and whose JSON object has a
  truthy \<^verbatim>\<open>"ok"\<close>; every 2xx response with \<^verbatim>\<open>"ok": true\<close> is one. On the first such attempt
  it returns at once: that attempt is the last request, and no sleep follows it.
\<close>

theorem send_message_true_iff:
  "((fst (send_message self net message max_retries) = Inr True)
      = (\<exists>j < posts (snd (send_message self net message max_retries)). accepted (net j)))
   \<and> (\<forall>j < posts (snd (send_message self net message max_retries)).
        int j < max_retries
        \<and> (accepted (net j) \<longrightarrow>
             posts (snd (send_message self net message max_retries)) = Suc j
             \<and> sleeps (attempt_events j (snd (send_message self net message max_retries))) = []))
   \<and> (\<forall>r kvs. 200 \<le> status_code r \<and> status_code r < 300 \<and> json_body r = Some (JDict kvs)
        \<and> map_of kvs ''ok'' = Some (JBool True) \<longrightarrow> accepted (PostResponse r))"
proof -
  let ?R = "send_message self net message max_retries"
  have within: "int j < max_retries" if "j < posts (snd ?R)" for j
    using send_message_run(1)[OF that] .
  have stop: "posts (snd ?R) = Suc j \<and> sleeps (attempt_events j (snd ?R)) = [] \<and> fst ?R = Inr True"
    if j: "j < posts (snd ?R)" and acc: "accepted (net j)" for j
  proof -
    note b = attempt_body_accepted[OF acc, of self message max_retries j]
    from send_message_run(3)[OF j, of "Inr True"] send_message_run(2)[OF j] b
    show ?thesis by simp
  qed
  have only_if: "\<exists>j < posts (snd ?R). accepted (net j)" if t: "fst ?R = Inr True"
  proof -
    have pos: "0 < posts (snd ?R)"
    proof (cases "0 < max_retries")
      case True
      then show ?thesis by (rule send_message_posts_pos)
    next
      case False
      with t show ?thesis by (simp add: send_message_def send_loop_done)
    qed
    define j where "j = posts (snd ?R) - 1"
    have j: "j < posts (snd ?R)" and last: "posts (snd ?R) = Suc j" using pos by (simp_all add: j_def)
    have "accepted (net j)"
    proof (rule ccontr)
      assume na: "\<not> accepted (net j)"
      show False
      proof (cases "fst (attempt_body self message max_retries j (net j))")
        case (Leave r)
        with send_message_run(3)[OF j Leave] t attempt_body_not_accepted[OF na, of self message max_retries j]
        show False by simp
      next
        case Next
        show False
        proof (cases "int (Suc j) < max_retries")
          case True
          with send_message_run(4)[OF j Next True] last show False by simp
        next
          case False
          with send_message_run(5)[OF j Next False] t show False by simp
        qed
      qed
    qed
    with j show ?thesis by blast
  qed
  show ?thesis
    using within stop only_if accepted_2xx_ok_true by blast
qed

theorem send_message_true_iff_witness:
  "fst (send_message notifier0 fails_twice_then_ok (ascii ''hi'') 3) = Inr True
   \<and> posts (snd (send_message notifier0 fails_twice_then_ok (ascii ''hi'') 3)) = 3
   \<and> accepted (fails_twice_then_ok 2)
   \<and> fst (send_message notifier0 fails_twice_then_ok (ascii ''hi'') 2) = Inr False
   \<and> posts (snd (send_message notifier0 fails_twice_then_ok (ascii ''hi'') 2)) = 2"
proof -
  have p3: "posts (snd (send_message notifier0 fails_twice_then_ok (ascii ''hi'') 3)) = 3"
    and p2: "posts (snd (send_message notifier0 fails_twice_then_ok (ascii ''hi'') 2)) = 2"
    and f2: "fst (send_message notifier0 fails_twice_then_ok (ascii ''hi'') 2) = Inr False"
    by (simp_all add: eval_defs fails_twice_then_ok_def)
  have a: "accepted (fails_twice_then_ok 2)"
    by (simp add: accepted_def fails_twice_then_ok_def example_defs raises_for_status_def dict_get_def)
  have "\<exists>j < posts (snd (send_message notifier0 fails_twice_then_ok (ascii ''hi'') 3)). accepted (fails_twice_then_ok j)"
    unfolding p3 using a by (intro exI[of _ 2]) simp
  with send_message_true_iff [of notifier0 fails_twice_then_ok "ascii ''hi''" 3, THEN conjunct1]
  have "fst (send_message notifier0 fails_twice_then_ok (ascii ''hi'') 3) = Inr True" by blast
  with p3 p2 f2 a show ?thesis by blast
qed

section \<open>Other HTTP errors\<close>

text \<open>
  Claim C6 says that every non-2xx status other than 429, 401 and 400 is treated as a
  retryable failure. A 300 response with an ok body is not a failure to the code at all:
  \<^verbatim>\<open>raise_for_status\<close> lets it through and the call returns \<^verbatim>\<open>True\<close> after one request.
\<close>

theorem other_status_counterexample:
  "has_status 300 (multiple_choices_ok 0)
   \<and> fst (send_message notifier0 multiple_choices_ok (ascii ''hi'') 3) = Inr True
   \<and> posts (snd (send_message notifier0 multiple_choices_ok (ascii ''hi'') 3)) = 1
   \<and> sleeps (snd (send_message notifier0 multiple_choices_ok (ascii ''hi'') 3)) = []"
  by (simp add: eval_defs multiple_choices_ok_def has_status_def)

lemma attempt_body_500:
  "has_status 500 res \<Longrightarrow>
   attempt_body self msg 3 k res =
     (if k < 2
      then (Next, [Post (api_url self) (payload_of self msg), Log ERROR (HttpErrorLogged 500),
                   Log INFO (RetryingIn (2 ^ k)), Sleep (2 ^ k)])
      else (Leave (Inr False), [Post (api_url self) (payload_of self msg), Log ERROR (HttpErrorLogged 500)]))"
  by (auto simp: has_status_def attempt_body_def send_request_def handle_http_error_def
        wait_before_retry_def raises_for_status_def notifier_consts split: post_result.splits)

text \<open>
  Claim C6, amended. An attempt answered with an HTTP error status (400 to 599) other than
  429, 401 and 400 is retried after the backoff of \<open>2 ^ j\<close> seconds unless it is the last
  attempt allowed, where the call returns \<^verbatim>\<open>False\<close> without sleeping. With \<^verbatim>\<open>max_retries\<close>
  3 and HTTP 500 on all three attempts the call returns \<^verbatim>\<open>False\<close> after three requests and
  exactly two sleeps, of 1 and 2 seconds.
\<close>

theorem other_http_error_retryable:
  "(j < posts (snd (send_message self net message max_retries)) \<and> net j = PostResponse r
      \<and> 400 \<le> status_code r \<and> status_code r < 600 \<and> status_code r \<notin> {429, 401, 400}
    \<longrightarrow> (if int (Suc j) < max_retries
         then Suc j < posts (snd (send_message self net message max_retries))
              \<and> sleeps (attempt_events j (snd (send_message self net message max_retries))) = [2 ^ j]
         else posts (snd (send_message self net message max_retries)) = Suc j
              \<and> sleeps (attempt_events j (snd (send_message self net message max_retries))) = []
              \<and> fst (send_message self net message max_retries) = Inr False))
   \<and> (has_status 500 (net 0) \<and> has_status 500 (net 1) \<and> has_status 500 (net 2)
    \<longrightarrow> fst (send_message self net message 3) = Inr False
        \<and> posts (snd (send_message self net message 3)) = 3
        \<and> sleeps (snd (send_message self net message 3)) = [1, 2])"
proof (intro conjI impI)
  assume a: "j < posts (snd (send_message self net message max_retries)) \<and> net j = PostResponse r
      \<and> 400 \<le> status_code r \<and> status_code r < 600 \<and> status_code r \<notin> {429, 401, 400}"
  then have j: "j < posts (snd (send_message self net message max_retries))" by simp
  from a have body:
    "fst (attempt_body self message max_retries j (net j)) =
       (if int (Suc j) < max_retries then Next else Leave (Inr False))"
    "sleeps (snd (attempt_body self message max_retries j (net j))) =
       (if int (Suc j) < max_retries then [2 ^ j] else [])"
    using attempt_body_other_http_error[of r self message max_retries j] by simp_all
  show "if int (Suc j) < max_retries
         then Suc j < posts (snd (send_message self net message max_retries))
              \<and> sleeps (attempt_events j (snd (send_message self net message max_retries))) = [2 ^ j]
         else posts (snd (send_message self net message max_retries)) = Suc j
              \<and> sleeps (attempt_events j (snd (send_message self net message max_retries))) = []
              \<and> fst (send_message self net message max_retries) = Inr False"
  proof (cases "int (Suc j) < max_retries")
    case True
    with body have "fst (attempt_body self message max_retries j (net j)) = Next" by simp
    from send_message_run(4)[OF j this True] send_message_run(2)[OF j] body(2) True
    show ?thesis by simp
  next
    case False
    with body have "fst (attempt_body self message max_retries j (net j)) = Leave (Inr False)" by simp
    from send_message_run(3)[OF j this] send_message_run(2)[OF j] body(2) False
    show ?thesis by simp
  qed
next
  assume s: "has_status 500 (net 0) \<and> has_status 500 (net 1) \<and> has_status 500 (net 2)"
  then have b0: "attempt_body self message 3 0 (net 0) =
        (Next, [Post (api_url self) (payload_of self message), Log ERROR (HttpErrorLogged 500),
                Log INFO (RetryingIn (2 ^ 0)), Sleep (2 ^ 0)])"
    and b1: "attempt_body self message 3 1 (net 1) =
        (Next, [Post (api_url self) (payload_of self message), Log ERROR (HttpErrorLogged 500),
                Log INFO (RetryingIn (2 ^ 1)), Sleep (2 ^ 1)])"
    and b2: "attempt_body self message 3 2 (net 2) =
        (Leave (Inr False), [Post (api_url self) (payload_of self message), Log ERROR (HttpErrorLogged 500)])"
    by (simp_all add: attempt_body_500)
  have l2: "send_loop self net message 3 2 =
      (Inr False, [Post (api_url self) (payload_of self message), Log ERROR (HttpErrorLogged 500)])"
    using send_loop_step[where net = net, OF _ b2] by simp
  have l1: "send_loop self net message 3 1 =
      (Inr False, [Post (api_url self) (payload_of self message), Log ERROR (HttpErrorLogged 500),
                   Log INFO (RetryingIn 2), Sleep 2,
                   Post (api_url self) (payload_of self message), Log ERROR (HttpErrorLogged 500)])"
    using send_loop_step[where net = net, OF _ b1] l2 by (simp add: numeral_2_eq_2)
  have l0: "send_loop self net message 3 0 =
      (Inr False, [Post (api_url self) (payload_of self message), Log ERROR (HttpErrorLogged 500),
                   Log INFO (RetryingIn 1), Sleep 1,
                   Post (api_url self) (payload_of self message), Log ERROR (HttpErrorLogged 500),
                   Log INFO (RetryingIn 2), Sleep 2,
                   Post (api_url self) (payload_of self message), Log ERROR (HttpErrorLogged 500)])"
    using send_loop_step[where net = net, OF _ b0] l1 by simp
  show "fst (send_message self net message 3) = Inr False"
    and "posts (snd (send_message self net message 3)) = 3"
    and "sleeps (snd (send_message self net message 3)) = [1, 2]"
    by (simp_all add: send_message_def l0)
qed

theorem other_http_error_retryable_witness:
  "fst (send_message notifier0 (always_status 500) (ascii ''hi'') 3) = Inr False
   \<and> posts (snd (send_message notifier0 (always_status 500) (ascii ''hi'') 3)) = 3
   \<and> sleeps (snd (send_message notifier0 (always_status 500) (ascii ''hi'') 3)) = [1, 2]
   \<and> sleeps (attempt_events 0 (snd (send_message notifier0 (always_status 500) (ascii ''hi'') 3))) = [1]
   \<and> sleeps (attempt_events 2 (snd (send_message notifier0 (always_status 500) (ascii ''hi'') 3))) = []"
proof -
  let ?r = "\<lparr>status_code = 500, retry_after_header = None, json_body = api_error ''error''\<rparr>"
  have n: "always_status 500 j = PostResponse ?r" for j
    by (simp add: always_status_def http_response_def)
  have s: "has_status 500 (always_status 500 j)" for j
    by (simp add: n has_status_def)
  note inst = other_http_error_retryable [where self = notifier0 and net = "always_status 500"
      and message = "ascii ''hi''" and r = ?r]
  from inst [where max_retries = 3 and j = 0, THEN conjunct2] s
  have d: "fst (send_message notifier0 (always_status 500) (ascii ''hi'') 3) = Inr False
      \<and> posts (snd (send_message notifier0 (always_status 500) (ascii ''hi'') 3)) = 3
      \<and> sleeps (snd (send_message notifier0 (always_status 500) (ascii ''hi'') 3)) = [1, 2]"
    by blast
  from inst [where max_retries = 3 and j = 0, THEN conjunct1] d n
  have e0: "sleeps (attempt_events 0 (snd (send_message notifier0 (always_status 500) (ascii ''hi'') 3))) = [1]"
    by simp
  from inst [where max_retries = 3 and j = 2, THEN conjunct1] d n
  have e2: "sleeps (attempt_events 2 (snd (send_message notifier0 (always_status 500) (ascii ''hi'') 3))) = []"
    by simp
  from d e0 e2 show ?thesis by blast
qed

section \<open>Configuration\<close>

text \<open>
  Claim C10. \<^verbatim>\<open>Config.validate\<close> treats a credential set to the empty string exactly like
  an absent one. Whenever \<^verbatim>\<open>TELEGRAM_BOT_TOKEN\<close> or \<^verbatim>\<open>TELEGRAM_CHAT_ID\<close> is \<^verbatim>\<open>None\<close> or
  empty it raises \<^verbatim>\<open>ValueError\<close>, whose message holds one line per missing credential, the
  token's first, joined by a newline; when both are non-empty it raises nothing.
\<close>

theorem validate_missing_credentials:
  "(\<not> py_not (TELEGRAM_BOT_TOKEN cls) \<and> \<not> py_not (TELEGRAM_CHAT_ID cls)
      \<longrightarrow> validate cls = Inr [ConfigurationValidated])
   \<and> (py_not (TELEGRAM_BOT_TOKEN cls) \<and> \<not> py_not (TELEGRAM_CHAT_ID cls)
      \<longrightarrow> validate cls = Inl ''TELEGRAM_BOT_TOKEN not set. Please add it to your .env file.'')
   \<and> (\<not> py_not (TELEGRAM_BOT_TOKEN cls) \<and> py_not (TELEGRAM_CHAT_ID cls)
      \<longrightarrow> validate cls = Inl ''TELEGRAM_CHAT_ID not set. Please add it to your .env file.'')
   \<and> (py_not (TELEGRAM_BOT_TOKEN cls) \<and> py_not (TELEGRAM_CHAT_ID cls)
      \<longrightarrow> validate cls =
           Inl (''TELEGRAM_BOT_TOKEN not set. Please add it to your .env file.'' @ [CHR 0x0A]
                @ ''TELEGRAM_CHAT_ID not set. Please add it to your .env file.''))
   \<and> (py_not t = (t = None \<or> t = Some ''''))
   \<and> validate (cls\<lparr>TELEGRAM_BOT_TOKEN := Some ''''\<rparr>) = validate (cls\<lparr>TELEGRAM_BOT_TOKEN := None\<rparr>)
   \<and> validate (cls\<lparr>TELEGRAM_CHAT_ID := Some ''''\<rparr>) = validate (cls\<lparr>TELEGRAM_CHAT_ID := None\<rparr>)"
proof -
  have "py_not t = (t = None \<or> t = Some '''')" by (cases t) auto
  then show ?thesis
    by (simp add: validate_def ENV_BOT_TOKEN_def ENV_CHAT_ID_def)
qed

theorem validate_missing_credentials_witness:
  "validate \<lparr>TELEGRAM_BOT_TOKEN = Some ''123:ABC'', TELEGRAM_CHAT_ID = Some ''42''\<rparr>
     = Inr [ConfigurationValidated]
   \<and> validate \<lparr>TELEGRAM_BOT_TOKEN = Some '''', TELEGRAM_CHAT_ID = Some ''42''\<rparr>
     = Inl ''TELEGRAM_BOT_TOKEN not set. Please add it to your .env file.''
   \<and> validate \<lparr>TELEGRAM_BOT_TOKEN = Some ''123:ABC'', TELEGRAM_CHAT_ID = None\<rparr>
     = Inl ''TELEGRAM_CHAT_ID not set. Please add it to your .env file.''
   \<and> validate \<lparr>TELEGRAM_BOT_TOKEN = None, TELEGRAM_CHAT_ID = Some ''''\<rparr>
     = Inl (''TELEGRAM_BOT_TOKEN not set. Please add it to your .env file.'' @ [CHR 0x0A]
            @ ''TELEGRAM_CHAT_ID not set. Please add it to your .env file.'')"
proof -
  let ?both = "\<lparr>TELEGRAM_BOT_TOKEN = Some ''123:ABC'', TELEGRAM_CHAT_ID = Some ''42''\<rparr>"
  let ?no_token = "\<lparr>TELEGRAM_BOT_TOKEN = Some '''', TELEGRAM_CHAT_ID = Some ''42''\<rparr>"
  let ?no_chat = "\<lparr>TELEGRAM_BOT_TOKEN = Some ''123:ABC'', TELEGRAM_CHAT_ID = None\<rparr>"
  let ?none = "\<lparr>TELEGRAM_BOT_TOKEN = None, TELEGRAM_CHAT_ID = Some ''''\<rparr>"
  have h1: "\<not> py_not (TELEGRAM_BOT_TOKEN ?both) \<and> \<not> py_not (TELEGRAM_CHAT_ID ?both)" by simp
  have h2: "py_not (TELEGRAM_BOT_TOKEN ?no_token) \<and> \<not> py_not (TELEGRAM_CHAT_ID ?no_token)" by simp
  have h3: "\<not> py_not (TELEGRAM_BOT_TOKEN ?no_chat) \<and> py_not (TELEGRAM_CHAT_ID ?no_chat)" by simp
  have h4: "py_not (TELEGRAM_BOT_TOKEN ?none) \<and> py_not (TELEGRAM_CHAT_ID ?none)" by simp
  note c1 = validate_missing_credentials [of ?both, THEN conjunct1, THEN mp, OF h1]
  note c2 = validate_missing_credentials [of ?no_token, THEN conjunct2, THEN conjunct1, THEN mp, OF h2]
  note c3 = validate_missing_credentials
      [of ?no_chat, THEN conjunct2, THEN conjunct2, THEN conjunct1, THEN mp, OF h3]
  note c4 = validate_missing_credentials
      [of ?none, THEN conjunct2, THEN conjunct2, THEN conjunct2, THEN conjunct1, THEN mp, OF h4]
  from c1 c2 c3 c4 show ?thesis by (intro conjI)
qed

section \<open>The next reminder\<close>

lemma instant_le_refl: "instant_le a a"
  by (simp add: instant_le_def)

lemma instant_le_trans: "instant_le a b \<Longrightarrow> instant_le b c \<Longrightarrow> instant_le a c"
  by (auto simp: instant_le_def)

lemma instant_le_total: "\<not> instant_le a b \<Longrightarrow> instant_le b a"
  by (auto simp: instant_le_def)

lemma schedule_next_run_soonest:
  "jobs \<noteq> [] \<Longrightarrow>
   \<exists>j \<in> set jobs. schedule_next_run jobs = Some (next_run j)
     \<and> (\<forall>j' \<in> set jobs. instant_le (next_run j) (next_run j'))"
proof (induction jobs)
  case Nil
  then show ?case by simp
next
  case (Cons a js)
  show ?case
  proof (cases js)
    case Nil
    then show ?thesis by (simp add: instant_le_refl)
  next
    case (Cons b ks)
    with Cons.IH obtain j where j: "j \<in> set js" "schedule_next_run js = Some (next_run j)"
      "\<forall>j' \<in> set js. instant_le (next_run j) (next_run j')" by auto
    show ?thesis
    proof (cases "instant_le (next_run a) (next_run j)")
      case True
      with j show ?thesis
        by (auto simp: instant_le_refl intro: instant_le_trans)
    next
      case False
      with j instant_le_total[OF False] show ?thesis
        by (auto simp: instant_le_refl)
    qed
  qed
qed

text \<open>\<^verbatim>\<open>strftime('%H:%M')\<close> character by character, for an instant within its day.\<close>

lemma strftime_HM_digits:
  assumes "second_of_day t < 86400"
  shows "strftime_HM t =
    [''0123456789'' ! (second_of_day t div 3600 div 10),
     ''0123456789'' ! (second_of_day t div 3600 mod 10),
     CHR '':'',
     ''0123456789'' ! (second_of_day t div 60 mod 60 div 10),
     ''0123456789'' ! (second_of_day t div 60 mod 60 mod 10)]"
proof -
  have h: "second_of_day t div 3600 div 10 < 10" using assms by simp
  have m: "second_of_day t div 60 mod 60 div 10 < 10" by simp
  show ?thesis
    using h m by (simp add: strftime_HM_def two_digits_def)
qed

text \<open>
  Claim C8. \<^verbatim>\<open>get_next_reminder\<close> returns \<^verbatim>\<open>No reminders scheduled\<close> when no job is
  scheduled. Otherwise it names the soonest next-fire instant of all jobs: for a job whose
  next-fire instant no other job's precedes, it returns \<^verbatim>\<open>Next reminder at\<close> followed by the
  hour and the minute of that instant, two decimal digits each, with a colon between them.
\<close>

theorem get_next_reminder_soonest:
  "get_next_reminder [] = ''No reminders scheduled''
   \<and> (jobs \<noteq> [] \<and> (\<forall>j \<in> set jobs. second_of_day (next_run j) < 86400) \<longrightarrow>
        (\<exists>j \<in> set jobs.
           (\<forall>j' \<in> set jobs. instant_le (next_run j) (next_run j'))
           \<and> get_next_reminder jobs =
               ''Next reminder at '' @
               [''0123456789'' ! (second_of_day (next_run j) div 3600 div 10),
                ''0123456789'' ! (second_of_day (next_run j) div 3600 mod 10),
                CHR '':'',
                ''0123456789'' ! (second_of_day (next_run j) div 60 mod 60 div 10),
                ''0123456789'' ! (second_of_day (next_run j) div 60 mod 60 mod 10)]))"
proof (intro conjI impI)
  show "get_next_reminder [] = ''No reminders scheduled''"
    by (simp add: get_next_reminder_def)
next
  assume a: "jobs \<noteq> [] \<and> (\<forall>j \<in> set jobs. second_of_day (next_run j) < 86400)"
  then obtain j where j: "j \<in> set jobs" "schedule_next_run jobs = Some (next_run j)"
    "\<forall>j' \<in> set jobs. instant_le (next_run j) (next_run j')"
    using schedule_next_run_soonest[of jobs] by blast
  from a j(1) have "second_of_day (next_run j) < 86400" by blast
  then have "get_next_reminder jobs =
               ''Next reminder at '' @
               [''0123456789'' ! (second_of_day (next_run j) div 3600 div 10),
                ''0123456789'' ! (second_of_day (next_run j) div 3600 mod 10),
                CHR '':'',
                ''0123456789'' ! (second_of_day (next_run j) div 60 mod 60 div 10),
                ''0123456789'' ! (second_of_day (next_run j) div 60 mod 60 mod 10)]"
    by (simp only: get_next_reminder_def j(2) option.case strftime_HM_digits)
  with j(1,3) show "\<exists>j \<in> set jobs.
           (\<forall>j' \<in> set jobs. instant_le (next_run j) (next_run j'))
           \<and> get_next_reminder jobs =
               ''Next reminder at '' @
               [''0123456789'' ! (second_of_day (next_run j) div 3600 div 10),
                ''0123456789'' ! (second_of_day (next_run j) div 3600 mod 10),
                CHR '':'',
                ''0123456789'' ! (second_of_day (next_run j) div 60 mod 60 div 10),
                ''0123456789'' ! (second_of_day (next_run j) div 60 mod 60 mod 10)]"
    by blast
qed

theorem get_next_reminder_soonest_witness:
  "get_next_reminder [] = ''No reminders scheduled''
   \<and> get_next_reminder [job_1505] = ''Next reminder at 15:05''
   \<and> get_next_reminder [job_1505, job_0900] = ''Next reminder at 09:00''
   \<and> get_next_reminder [job_0900, job_2100] = ''Next reminder at 21:00''
   \<and> instant_le (next_run job_2100) (next_run job_0900)"
proof -
  have h: "[job_1505] \<noteq> [] \<and> (\<forall>j \<in> set [job_1505]. second_of_day (next_run j) < 86400)"
    by (simp add: job_1505_def)
  from get_next_reminder_soonest [of "[job_1505]", THEN conjunct2, THEN mp, OF h]
  have a: "get_next_reminder [job_1505] = ''Next reminder at 15:05''"
    by (simp add: job_1505_def)
  have e: "get_next_reminder [job_1505, job_0900] = ''Next reminder at 09:00''"
    "get_next_reminder [job_0900, job_2100] = ''Next reminder at 21:00''"
    "instant_le (next_run job_2100) (next_run job_0900)"
    by (simp_all add: get_next_reminder_def job_0900_def job_1505_def job_2100_def instant_le_def
          strftime_HM_def two_digits_def)
  from get_next_reminder_soonest [of "[job_1505]", THEN conjunct1]
  have "get_next_reminder [] = ''No reminders scheduled''" .
  then show ?thesis using a e by (intro conjI)
qed

section \<open>Firing a job\<close>

lemma run_job_returns:
  assumes "fst (send_message notifier net (job_message j) DEFAULT_MAX_RETRIES) = Inr success"
  shows "run_job notifier net now j =
    (Inr (j\<lparr>next_run := \<lparr>date = date now + 1, second_of_day = at_second j\<rparr>\<rparr>),
     Log INFO (SendingReminder (job_time_str j))
     # snd (send_message notifier net (job_message j) DEFAULT_MAX_RETRIES)
     @ [if success then Log INFO (ReminderSent (job_time_str j))
        else Log ERROR (ReminderFailed (job_time_str j))])"
  using assms
  by (cases "send_message notifier net (job_message j) DEFAULT_MAX_RETRIES")
     (simp add: run_job_def send_reminder_def)

lemma run_pending_from_returns:
  "(\<forall>i < length jobs. \<exists>b.
      fst (send_message notifier (nets (i0 + i)) (job_message (jobs ! i)) DEFAULT_MAX_RETRIES) = Inr b)
   \<Longrightarrow> fst (run_pending_from notifier nets now i0 jobs) =
         Inr (map (\<lambda>j. if instant_le (next_run j) now
                         then j\<lparr>next_run := \<lparr>date = date now + 1, second_of_day = at_second j\<rparr>\<rparr>
                         else j) jobs)"
proof (induction jobs arbitrary: i0)
  case Nil
  then show ?case by simp
next
  case (Cons a js)
  from Cons.prems have hd: "\<exists>b. fst (send_message notifier (nets i0) (job_message a) DEFAULT_MAX_RETRIES) = Inr b"
    by fastforce
  then obtain b where b: "fst (send_message notifier (nets i0) (job_message a) DEFAULT_MAX_RETRIES) = Inr b" ..
  have "\<forall>i < length js. \<exists>b.
      fst (send_message notifier (nets (Suc i0 + i)) (job_message (js ! i)) DEFAULT_MAX_RETRIES) = Inr b"
  proof (intro allI impI)
    fix i assume "i < length js"
    then have "Suc i < length (a # js)" by simp
    with Cons.prems have "\<exists>b. fst (send_message notifier (nets (i0 + Suc i)) (job_message ((a # js) ! Suc i)) DEFAULT_MAX_RETRIES) = Inr b"
      by blast
    then show "\<exists>b. fst (send_message notifier (nets (Suc i0 + i)) (job_message (js ! i)) DEFAULT_MAX_RETRIES) = Inr b"
      by simp
  qed
  from Cons.IH[OF this] show ?case
    by (cases "run_pending_from notifier nets now (Suc i0) js")
       (auto simp: run_job_returns[OF b] split: sum.splits)
qed

text \<open>
  When the delivery returns, \<^verbatim>\<open>True\<close> or \<^verbatim>\<open>False\<close> alike, the fired job advances: its
  next-fire instant is strictly later than the instant of firing and is the job's time of day
  on the following calendar day. \<^verbatim>\<open>_send_reminder\<close> logs the outcome and calls
  \<^verbatim>\<open>send_message\<close> once, so the requests of the firing are those of that one call. A poll
  advances every due job so and leaves the others alone.
\<close>

lemma run_job_advances:
  "(fst (send_message notifier net (job_message j) DEFAULT_MAX_RETRIES) = Inr success \<longrightarrow>
      fst (run_job notifier net now j) =
        Inr (j\<lparr>next_run := \<lparr>date = date now + 1, second_of_day = 3600 * at_hour j + 60 * at_minute j\<rparr>\<rparr>)
      \<and> instant_less now \<lparr>date = date now + 1, second_of_day = 3600 * at_hour j + 60 * at_minute j\<rparr>
      \<and> posts (snd (run_job notifier net now j)) =
          posts (snd (send_message notifier net (job_message j) DEFAULT_MAX_RETRIES))
      \<and> last (snd (run_job notifier net now j)) =
          (if success then Log INFO (ReminderSent (job_time_str j))
           else Log ERROR (ReminderFailed (job_time_str j))))
   \<and> ((\<forall>i < length jobs. \<exists>b.
          fst (send_message notifier (nets i) (job_message (jobs ! i)) DEFAULT_MAX_RETRIES) = Inr b) \<longrightarrow>
      fst (run_pending notifier nets now jobs) =
        Inr (map (\<lambda>j. if instant_le (next_run j) now
                        then j\<lparr>next_run := \<lparr>date = date now + 1, second_of_day = at_second j\<rparr>\<rparr>
                        else j) jobs))"
proof (intro conjI impI)
  assume s: "fst (send_message notifier net (job_message j) DEFAULT_MAX_RETRIES) = Inr success"
  note r = run_job_returns[OF s, of now]
  show "fst (run_job notifier net now j) =
        Inr (j\<lparr>next_run := \<lparr>date = date now + 1, second_of_day = 3600 * at_hour j + 60 * at_minute j\<rparr>\<rparr>)"
    by (simp add: r at_second_def)
  show "instant_less now \<lparr>date = date now + 1, second_of_day = 3600 * at_hour j + 60 * at_minute j\<rparr>"
    by (simp add: instant_less_def)
  show "posts (snd (run_job notifier net now j)) =
          posts (snd (send_message notifier net (job_message j) DEFAULT_MAX_RETRIES))"
    by (simp add: r posts_append)
  show "last (snd (run_job notifier net now j)) =
          (if success then Log INFO (ReminderSent (job_time_str j))
           else Log ERROR (ReminderFailed (job_time_str j)))"
    by (simp add: r)
next
  assume "\<forall>i < length jobs. \<exists>b.
          fst (send_message notifier (nets i) (job_message (jobs ! i)) DEFAULT_MAX_RETRIES) = Inr b"
  then show "fst (run_pending notifier nets now jobs) =
        Inr (map (\<lambda>j. if instant_le (next_run j) now
                        then j\<lparr>next_run := \<lparr>date = date now + 1, second_of_day = at_second j\<rparr>\<rparr>
                        else j) jobs)"
    using run_pending_from_returns[of jobs notifier nets 0 now] by (simp add: run_pending_def)
qed

lemma run_job_advances_example:
  "fst (run_job notifier0 (always_status 500) just_after_nine job_0900) =
     Inr (job_0900\<lparr>next_run := \<lparr>date = 101, second_of_day = 32400\<rparr>\<rparr>)
   \<and> instant_less just_after_nine \<lparr>date = 101, second_of_day = 32400\<rparr>
   \<and> posts (snd (run_job notifier0 (always_status 500) just_after_nine job_0900)) = 3
   \<and> last (snd (run_job notifier0 (always_status 500) just_after_nine job_0900)) =
       Log ERROR (ReminderFailed ''09:00'')"
proof -
  have s: "fst (send_message notifier0 (always_status 500) (job_message job_0900) DEFAULT_MAX_RETRIES)
      = Inr False"
    and p: "posts (snd (send_message notifier0 (always_status 500) (job_message job_0900) DEFAULT_MAX_RETRIES)) = 3"
    by (simp_all add: eval_defs always_status_def job_0900_def)
  from run_job_advances
    [where notifier = notifier0 and net = "always_status 500" and j = job_0900 and success = False
       and now = just_after_nine, THEN conjunct1, THEN mp, OF s]
  show ?thesis
    using p by (simp add: just_after_nine_def job_0900_def)
qed

text \<open>
  Claim C7 says that every job advances after it fires and that a failed send is logged,
  whatever became of the delivery. On an exchange where \<^verbatim>\<open>send_message\<close> raises (a 200
  response whose JSON body is a list, as for claim C2) it does not hold: \<^verbatim>\<open>_send_reminder\<close>
  has no handler, so it logs no failure and the exception leaves the firing of the due job
  and the poll before the job is rescheduled.
\<close>

theorem fired_job_delivery_raises:
  "instant_le (next_run job_0900) just_after_nine
   \<and> fst (send_reminder notifier0 body_json_list (job_message job_0900) (job_time_str job_0900))
       = Inl AttributeError
   \<and> Log ERROR (ReminderFailed ''09:00'')
       \<notin> set (snd (send_reminder notifier0 body_json_list (job_message job_0900) (job_time_str job_0900)))
   \<and> fst (run_job notifier0 body_json_list just_after_nine job_0900) = Inl AttributeError
   \<and> fst (run_pending notifier0 nets_json_list just_after_nine [job_0900]) = Inl AttributeError"
  by (simp add: eval_defs body_json_list_def nets_json_list_def send_reminder_def run_job_def
        run_pending_def job_0900_def just_after_nine_def instant_le_def)

section \<open>The default table\<close>

text \<open>
  Set up at 08:59 on day 100, the five entries of \<^verbatim>\<open>REMINDER_MESSAGES\<close> give five jobs, each
  due on the same day at its time of day, and five log lines.
\<close>

lemma setup_schedule_table:
  "map_option (\<lambda>(jobs, evs). (map job_time_str jobs, map next_run jobs, length evs))
     (setup_schedule morning REMINDER_MESSAGES []) =
   Some ([''09:00'', ''12:00'', ''15:00'', ''18:00'', ''21:00''],
         [\<lparr>date = 100, second_of_day = 32400\<rparr>, \<lparr>date = 100, second_of_day = 43200\<rparr>,
          \<lparr>date = 100, second_of_day = 54000\<rparr>, \<lparr>date = 100, second_of_day = 64800\<rparr>,
          \<lparr>date = 100, second_of_day = 75600\<rparr>],
         5)"
  by (simp add: REMINDER_MESSAGES_def morning_def every_day_at_do_def parse_time_str_def
        first_run_def is_digit_def digit_val_def)

end
